theory Spec2Isabelle
  imports Complex_Main "HOL-Library.Multiset"
begin

section \<open>Python values and exceptions\<close>

text \<open>
  The exceptions the modelled code can raise.  A function of the source that can raise
  returns a sum whose left summand is the exception.
\<close>

datatype py_error = IndexError | AttributeError | TypeError | ValueError | ClientException

text \<open>
  \<^verbatim>\<open>list.pop(i)\<close>: a negative index counts from the end; an index that is out of range
  after that raises \<^verbatim>\<open>IndexError\<close>.  The result is the removed item and the remaining list.
\<close>

definition py_pop :: "'a list \<Rightarrow> int \<Rightarrow> py_error + ('a \<times> 'a list)" where
  "py_pop xs i =
     (let n = int (length xs); k = (if i < 0 then i + n else i)
      in if k < 0 \<or> k \<ge> n then Inl IndexError
         else Inr (xs ! nat k, take (nat k) xs @ drop (Suc (nat k)) xs))"

text \<open>
  \<^verbatim>\<open>list.insert(j, x)\<close>: a negative index counts from the end and is clipped at 0, an
  index beyond the end is clipped at the length; it never raises.
\<close>

definition py_insert :: "'a list \<Rightarrow> int \<Rightarrow> 'a \<Rightarrow> 'a list" where
  "py_insert xs j x =
     (let n = int (length xs);
          k0 = (if j < 0 then j + n else j);
          k1 = (if k0 < 0 then 0 else k0);
          k = (if k1 > n then n else k1)
      in take (nat k) xs @ x # drop (nat k) xs)"

section \<open>The queue of a \<^verbatim>\<open>GuildPlayer\<close>\<close>

text \<open>
  \<^verbatim>\<open>GuildPlayer.q_move(src, dst)\<close> with 1-based indices: the pair is the returned
  boolean and the queue afterwards.
\<close>

definition q_move :: "'a list \<Rightarrow> int \<Rightarrow> int \<Rightarrow> py_error + (bool \<times> 'a list)" where
  "q_move queue src dst =
     (let i = src - 1; j = dst - 1
      in if i < 0 \<or> j < 0 \<or> i \<ge> int (length queue) \<or> j \<ge> int (length queue)
         then Inr (False, queue)
         else (case py_pop queue i of
                 Inl e \<Rightarrow> Inl e
               | Inr (item, rest) \<Rightarrow> Inr (True, py_insert rest j item)))"

text \<open>
  \<^verbatim>\<open>GuildPlayer.q_remove(index)\<close>: the returned track (or \<^verbatim>\<open>None\<close>) and the queue
  afterwards.
\<close>

definition q_remove :: "'a list \<Rightarrow> int \<Rightarrow> py_error + ('a option \<times> 'a list)" where
  "q_remove queue index =
     (let i = index - 1
      in if 0 \<le> i \<and> i < int (length queue)
         then (case py_pop queue i of
                 Inl e \<Rightarrow> Inl e
               | Inr (item, rest) \<Rightarrow> Inr (Some item, rest))
         else Inr (None, queue))"

definition q_clear :: "'a list \<Rightarrow> 'a list" where
  "q_clear queue = []"

definition q_add :: "'a list \<Rightarrow> 'a \<Rightarrow> bool \<Rightarrow> 'a list" where
  "q_add queue track to_front = (if to_front then py_insert queue 0 track else queue @ [track])"

section \<open>Decoded control records\<close>

text \<open>
  What \<^verbatim>\<open>json.loads\<close> returns: \<^verbatim>\<open>None\<close>, a boolean, an integer, a string, a list or a
  dictionary.  A dictionary is kept as an association list and read with \<open>map_of\<close>.
  Numbers with a fraction or an exponent (Python floats) are outside this type.
\<close>

datatype jval =
    JNull
  | JBool bool
  | JInt int
  | JStr string
  | JList "jval list"
  | JDict "(string \<times> jval) list"

text \<open>Python's truth value of a decoded value, as \<^verbatim>\<open>or\<close> and \<^verbatim>\<open>not\<close> test it.\<close>

fun truthy :: "jval \<Rightarrow> bool" where
  "truthy JNull = False"
| "truthy (JBool b) = b"
| "truthy (JInt n) = (n \<noteq> 0)"
| "truthy (JStr s) = (s \<noteq> [])"
| "truthy (JList xs) = (xs \<noteq> [])"
| "truthy (JDict kvs) = (kvs \<noteq> [])"

definition py_or :: "jval \<Rightarrow> jval \<Rightarrow> jval" where
  "py_or a b = (if truthy a then a else b)"

text \<open>
  \<^verbatim>\<open>x.get(key)\<close>: only a dictionary has the method (\<^verbatim>\<open>AttributeError\<close> otherwise), and a
  missing key gives \<^verbatim>\<open>None\<close>.
\<close>

fun as_dict :: "jval \<Rightarrow> py_error + (string \<times> jval) list" where
  "as_dict (JDict kvs) = Inr kvs"
| "as_dict v = Inl AttributeError"

definition dget :: "(string \<times> jval) list \<Rightarrow> string \<Rightarrow> jval" where
  "dget kvs k = (case map_of kvs k of None \<Rightarrow> JNull | Some v \<Rightarrow> v)"

text \<open>
  A string is kept as the bytes of its UTF-8 encoding.  On a string of ASCII characters
  only, \<^verbatim>\<open>str.lower()\<close> maps the letters \<^verbatim>\<open>A\<close> to \<^verbatim>\<open>Z\<close> and nothing else, and
  \<^verbatim>\<open>str.strip()\<close> removes the characters 9 to 13, 28 to 31 and 32 from both ends.  What
  the two methods do to a string with a character beyond ASCII (the Unicode case mapping
  and the Unicode white space) is not defined here: see \<open>unicode_lower\<close> and
  \<open>unicode_strip\<close> below.
\<close>

definition is_ascii :: "string \<Rightarrow> bool" where
  "is_ascii s = list_all (\<lambda>c. (of_char c :: nat) < 128) s"

definition lower_char :: "char \<Rightarrow> char" where
  "lower_char c =
     (if (65::nat) \<le> of_char c \<and> of_char c \<le> (90::nat)
      then char_of (of_char c + (32::nat)) else c)"

definition is_space :: "char \<Rightarrow> bool" where
  "is_space c =
     (let k = (of_char c :: nat) in (9 \<le> k \<and> k \<le> 13) \<or> (28 \<le> k \<and> k \<le> 32))"

text \<open>\<^verbatim>\<open>s.startswith(p)\<close>.\<close>

definition startswith :: "string \<Rightarrow> string \<Rightarrow> bool" where
  "startswith s p = (take (length p) s = p)"

section \<open>Tracks, the transport and the player state\<close>

record track =
  title :: string
  url :: string
  webpage_url :: string
  duration :: int
  requester_id :: int
  thumbnail :: "string option"
  added_at :: real

text \<open>
  The transport (\<^verbatim>\<open>discord.VoiceClient\<close>) is an external collaborator.  The record keeps
  what the code reads from it: whether it is connected, whether its audio player is
  playing or paused, and the volume (in percent) of the source it holds, if it holds one.
\<close>

datatype play_state = NotPlaying | Playing | Paused

record voice_client =
  is_connected :: bool
  play_state :: play_state
  source_volume :: "int option"

definition voice_pause :: "voice_client \<Rightarrow> voice_client" where
  "voice_pause v = (if play_state v = Playing then v\<lparr>play_state := Paused\<rparr> else v)"

definition voice_resume :: "voice_client \<Rightarrow> voice_client" where
  "voice_resume v = (if play_state v = Paused then v\<lparr>play_state := Playing\<rparr> else v)"

definition voice_stop :: "voice_client \<Rightarrow> voice_client" where
  "voice_stop v = v\<lparr>play_state := NotPlaying, source_volume := None\<rparr>"

text \<open>
  \<^verbatim>\<open>voice.play(source, after=...)\<close> raises \<^verbatim>\<open>ClientException\<close> when the client is not
  connected or is already playing.
\<close>

definition voice_play :: "voice_client \<Rightarrow> int \<Rightarrow> py_error + voice_client" where
  "voice_play v vol =
     (if \<not> is_connected v \<or> play_state v = Playing then Inl ClientException
      else Inr (v\<lparr>play_state := Playing, source_volume := Some vol\<rparr>))"

text \<open>
  The state of an \<^verbatim>\<open>asyncio.Task\<close> handle, as \<^verbatim>\<open>done()\<close> reads it, with the reason it
  is done.
\<close>

datatype task = TaskPending | TaskFinished | TaskCancelled

definition task_done :: "task \<Rightarrow> bool" where
  "task_done t = (t \<noteq> TaskPending)"

text \<open>
  \<^verbatim>\<open>GuildPlayer\<close>.  The two \<^verbatim>\<open>asyncio.Event\<close>s are the booleans they hold.  The fields
  \<^verbatim>\<open>bot\<close> and \<^verbatim>\<open>lock\<close> are left out: no method of the class reads or acquires them in a
  way that changes the state below.
\<close>

record player =
  guild_id :: int
  queue :: "track list"
  volume :: int
  loop_mode :: string
  current :: "track option"
  voice :: "voice_client option"
  next_event :: bool
  play_task :: "task option"
  vc_ready :: bool

definition new_player :: "int \<Rightarrow> player" where
  "new_player gid =
     \<lparr>guild_id = gid, queue = [], volume = 100, loop_mode = ''off'', current = None,
      voice = None, next_event = False, play_task = None, vc_ready = False\<rparr>"

text \<open>
  The collaborators and library functions the code calls and this theory does not define:
  the two yt-dlp helpers (which catch every exception themselves), \<^verbatim>\<open>random.shuffle\<close>,
  \<^verbatim>\<open>json.loads\<close> after \<^verbatim>\<open>decode("utf-8", "ignore")\<close> (\<open>None\<close> when it raises),
  \<^verbatim>\<open>int\<close> on a string (\<open>None\<close> when it raises \<^verbatim>\<open>ValueError\<close>), \<^verbatim>\<open>str\<close> on a value
  that is not a string, and \<^verbatim>\<open>str.lower()\<close> and \<^verbatim>\<open>str.strip()\<close> on a string that has
  a character beyond ASCII.
\<close>

record env =
  ytdl_search :: "string \<Rightarrow> track list"
  extract_audio_url :: "string \<Rightarrow> string option"
  random_shuffle :: "track list \<Rightarrow> track list"
  json_loads :: "string \<Rightarrow> jval option"
  int_of_str :: "string \<Rightarrow> int option"
  str_of :: "jval \<Rightarrow> string"
  unicode_lower :: "string \<Rightarrow> string"
  unicode_strip :: "string \<Rightarrow> string"

fun py_int :: "env \<Rightarrow> jval \<Rightarrow> py_error + int" where
  "py_int E (JInt n) = Inr n"
| "py_int E (JBool b) = Inr (if b then 1 else 0)"
| "py_int E (JStr s) = (case int_of_str E s of None \<Rightarrow> Inl ValueError | Some n \<Rightarrow> Inr n)"
| "py_int E v = Inl TypeError"

fun py_str :: "env \<Rightarrow> jval \<Rightarrow> string" where
  "py_str E (JStr s) = s"
| "py_str E v = str_of E v"

text \<open>\<^verbatim>\<open>x.lower()\<close>: only a string has the method (\<^verbatim>\<open>AttributeError\<close> otherwise).\<close>

fun str_lower :: "env \<Rightarrow> jval \<Rightarrow> py_error + string" where
  "str_lower E (JStr s) = Inr (if is_ascii s then map lower_char s else unicode_lower E s)"
| "str_lower E v = Inl AttributeError"

text \<open>\<^verbatim>\<open>s.strip()\<close>.\<close>

definition strip :: "env \<Rightarrow> string \<Rightarrow> string" where
  "strip E s =
     (if is_ascii s then rev (dropWhile is_space (rev (dropWhile is_space s)))
      else unicode_strip E s)"

section \<open>Methods of \<^verbatim>\<open>GuildPlayer\<close>\<close>

definition q_shuffle :: "env \<Rightarrow> player \<Rightarrow> player" where
  "q_shuffle E gp = gp\<lparr>queue := random_shuffle E (queue gp)\<rparr>"

text \<open>
  \<^verbatim>\<open>disconnect\<close>.  The call \<^verbatim>\<open>voice.disconnect(force=True)\<close> acts on the client object,
  which the next statement drops from the player; \<^verbatim>\<open>_play_task\<close> is not touched.
\<close>

definition disconnect :: "player \<Rightarrow> player" where
  "disconnect gp =
     gp\<lparr>queue := q_clear (queue gp), current := None, next_event := True,
        voice := None, vc_ready := False\<rparr>"

definition start_player_loop :: "player \<Rightarrow> player" where
  "start_player_loop gp =
     (case play_task gp of
        Some t \<Rightarrow> if \<not> task_done t then gp else gp\<lparr>play_task := Some TaskPending\<rparr>
      | None \<Rightarrow> gp\<lparr>play_task := Some TaskPending\<rparr>)"

definition set_volume :: "player \<Rightarrow> int \<Rightarrow> player" where
  "set_volume gp vol =
     (let new_volume = max 1 (min 200 vol);
          gp1 = gp\<lparr>volume := new_volume\<rparr>
      in case voice gp1 of
           None \<Rightarrow> gp1
         | Some v \<Rightarrow>
             (case source_volume v of
                None \<Rightarrow> gp1
              | Some old \<Rightarrow> gp1\<lparr>voice := Some (v\<lparr>source_volume := Some new_volume\<rparr>)\<rparr>))"

text \<open>
  \<^verbatim>\<open>_play_current_track\<close>.  Without a voice client or a current track it returns at
  once; when \<^verbatim>\<open>extract_audio_url\<close> gives no URL it sets \<^verbatim>\<open>next_event\<close> and returns;
  otherwise it hands the source to the transport.
\<close>

definition play_current_track :: "env \<Rightarrow> player \<Rightarrow> py_error + player" where
  "play_current_track E gp =
     (case voice gp of
        None \<Rightarrow> Inr gp
      | Some v \<Rightarrow>
          (case current gp of
             None \<Rightarrow> Inr gp
           | Some track \<Rightarrow>
               (let src_url = extract_audio_url E
                                (if url track \<noteq> [] then url track else webpage_url track)
                in if src_url = None \<or> src_url = Some []
                   then Inr (gp\<lparr>next_event := True\<rparr>)
                   else (case voice_play v (volume gp) of
                           Inl e \<Rightarrow> Inl e
                         | Inr v' \<Rightarrow> Inr (gp\<lparr>voice := Some v'\<rparr>)))))"

text \<open>
  The end of the body of \<^verbatim>\<open>_player_loop\<close>, after \<^verbatim>\<open>await self.next_event.wait()\<close> has
  returned: the repeat mode decides what happens to the current track.
\<close>

definition post_completion :: "player \<Rightarrow> player" where
  "post_completion gp =
     (case current gp of
        Some cur \<Rightarrow>
          if loop_mode gp = ''track'' then gp
          else if loop_mode gp = ''queue'' then gp\<lparr>queue := queue gp @ [cur], current := None\<rparr>
          else gp\<lparr>current := None\<rparr>
      | None \<Rightarrow> gp\<lparr>current := None\<rparr>)"

text \<open>
  The transport's \<^verbatim>\<open>after\<close> callback (and every other \<^verbatim>\<open>next_event.set()\<close>): the
  completion signal.
\<close>

definition completion_signal :: "player \<Rightarrow> player" where
  "completion_signal gp = gp\<lparr>next_event := True\<rparr>"

text \<open>
  One pass through the body of \<^verbatim>\<open>_player_loop\<close>, from the top to the point where the
  task next suspends: waiting for the voice client, the half-second sleep on an empty
  queue, waiting for the completion signal, the one-second sleep after an exception, or,
  when the signal is already set, the end of the body after the repeat mode was applied.
\<close>

datatype loop_step =
    WaitVoice player
  | IdleSleep player
  | AwaitCompletion player
  | Backoff player
  | Cycled player

definition player_loop_body :: "env \<Rightarrow> player \<Rightarrow> loop_step" where
  "player_loop_body E gp =
     (if \<not> vc_ready gp then WaitVoice gp
      else
        (let gp1 = gp\<lparr>next_event := False\<rparr>
         in case (case current gp1 of
                    Some cur \<Rightarrow> Some gp1
                  | None \<Rightarrow>
                      (case queue gp1 of
                         [] \<Rightarrow> None
                       | t # rest \<Rightarrow> Some (gp1\<lparr>queue := rest, current := Some t\<rparr>))) of
              None \<Rightarrow> IdleSleep gp1
            | Some gp2 \<Rightarrow>
                (case play_current_track E gp2 of
                   Inl e \<Rightarrow> Backoff gp2
                 | Inr gp3 \<Rightarrow>
                     if next_event gp3 then Cycled (post_completion gp3)
                     else AwaitCompletion gp3)))"

section \<open>The cog: player map and control log\<close>

record cog =
  players :: "int \<rightharpoonup> player"
  control_pos :: nat

definition get_player :: "cog \<Rightarrow> int \<Rightarrow> cog \<times> player" where
  "get_player c gid =
     (case players c gid of
        Some gp \<Rightarrow> (c, gp)
      | None \<Rightarrow> (c\<lparr>players := (players c)(gid \<mapsto> new_player gid)\<rparr>, new_player gid))"

text \<open>
  The player objects are mutated in place through the reference held in the dictionary:
  here the changed player replaces the entry under its key.  A mutation of a player adds
  no key to the dictionary, so where the key is missing nothing is written.
\<close>

definition put_player :: "cog \<Rightarrow> int \<Rightarrow> player \<Rightarrow> cog" where
  "put_player c gid gp =
     (case players c gid of
        None \<Rightarrow> c
      | Some old \<Rightarrow> c\<lparr>players := (players c)(gid \<mapsto> gp)\<rparr>)"

text \<open>
  \<^verbatim>\<open>gp.voice and gp.voice.is_playing()\<close> and \<^verbatim>\<open>gp.voice and gp.voice.is_paused()\<close>.
\<close>

definition voice_is :: "player \<Rightarrow> play_state \<Rightarrow> bool" where
  "voice_is gp s = (case voice gp of None \<Rightarrow> False | Some v \<Rightarrow> play_state v = s)"

text \<open>
  The part of \<^verbatim>\<open>_apply_control\<close> after \<^verbatim>\<open>gp = self.get_player(gid)\<close>: it reads the
  action and the payload and touches nothing but \<^verbatim>\<open>gp\<close>.  The result is the player
  afterwards and the exception raised, if any.
\<close>

definition apply_action ::
  "env \<Rightarrow> player \<Rightarrow> string \<Rightarrow> (string \<times> jval) list \<Rightarrow> player \<times> py_error option" where
  "apply_action E gp action payload =
     (if action \<in> set [''pause'', ''resume'', ''skip'', ''stop'', ''shuffle'', ''leave'', ''clear'']
      then
        (if action = ''pause'' \<and> voice_is gp Playing
         then (gp\<lparr>voice := map_option voice_pause (voice gp)\<rparr>, None)
         else if action = ''resume'' \<and> voice_is gp Paused
         then (gp\<lparr>voice := map_option voice_resume (voice gp)\<rparr>, None)
         else if action = ''skip'' \<and> voice gp \<noteq> None
         then (gp\<lparr>voice := map_option voice_stop (voice gp)\<rparr>, None)
         else if action = ''stop'' \<and> voice gp \<noteq> None
         then (gp\<lparr>queue := q_clear (queue gp), current := None,
                   voice := map_option voice_stop (voice gp)\<rparr>, None)
         else if action = ''shuffle'' then (q_shuffle E gp, None)
         else if action = ''leave'' then (disconnect gp, None)
         else if action = ''clear'' then (gp\<lparr>queue := q_clear (queue gp)\<rparr>, None)
         else (gp, None))
      else if action = ''loop''
      then (gp\<lparr>loop_mode := py_str E (py_or (dget payload ''mode'') (JStr ''off''))\<rparr>, None)
      else if action = ''volume''
      then
        (let level = (case py_int E (py_or (dget payload ''level'') (JInt 100)) of
                        Inl e \<Rightarrow> 100
                      | Inr n \<Rightarrow> n)
         in (set_volume gp level, None))
      else if action \<in> set [''play'', ''playtop'']
      then
        (let query = strip E (py_str E (py_or (dget payload ''query'') (JStr [])))
         in if query = [] then (gp, None)
            else
              (case take 1 (ytdl_search E
                              (if startswith query ''http'' then query
                               else ''ytsearch:'' @ query)) of
                 [] \<Rightarrow> (start_player_loop gp, None)
               | t # ts \<Rightarrow>
                   (case py_int E (py_or (dget payload ''user_id'') (JInt 0)) of
                      Inl e \<Rightarrow> (gp, Some e)
                    | Inr uid \<Rightarrow>
                        (start_player_loop
                           (gp\<lparr>queue := q_add (queue gp) (t\<lparr>requester_id := uid\<rparr>)
                                            (action = ''playtop'')\<rparr>), None))))
      else if action = ''queue_remove''
      then
        (case py_int E (py_or (dget payload ''index'') (JInt 0)) of
           Inl e \<Rightarrow> (gp, Some e)
         | Inr idx \<Rightarrow>
             (case q_remove (queue gp) idx of
                Inl e \<Rightarrow> (gp, Some e)
              | Inr (removed, rest) \<Rightarrow> (gp\<lparr>queue := rest\<rparr>, None)))
      else if action = ''queue_move''
      then
        (case py_int E (py_or (dget payload ''src'') (JInt 0)) of
           Inl e \<Rightarrow> (gp, Some e)
         | Inr src \<Rightarrow>
             (case py_int E (py_or (dget payload ''dst'') (JInt 0)) of
                Inl e \<Rightarrow> (gp, Some e)
              | Inr dst \<Rightarrow>
                  (case q_move (queue gp) src dst of
                     Inl e \<Rightarrow> (gp, Some e)
                   | Inr (ok, rest) \<Rightarrow> (gp\<lparr>queue := rest\<rparr>, None))))
      else (gp, None))"

text \<open>
  \<^verbatim>\<open>_apply_control(evt)\<close>: the cog afterwards and the exception raised, if any.  An
  exception raised before \<^verbatim>\<open>get_player\<close> leaves the cog as it was; one raised after it
  leaves the player that \<^verbatim>\<open>get_player\<close> may have inserted.
\<close>

definition apply_control :: "env \<Rightarrow> cog \<Rightarrow> jval \<Rightarrow> cog \<times> py_error option" where
  "apply_control E c evt =
     (case as_dict evt of
        Inl e \<Rightarrow> (c, Some e)
      | Inr ev \<Rightarrow>
          (case str_lower E (py_or (dget ev ''action'') (JStr [])) of
             Inl e \<Rightarrow> (c, Some e)
           | Inr action \<Rightarrow>
               (case as_dict (py_or (dget ev ''payload'') (JDict [])) of
                  Inl e \<Rightarrow> (c, Some e)
                | Inr payload \<Rightarrow>
                    (case py_int E (py_or (dget payload ''guild_id'') (JInt 0)) of
                       Inl e \<Rightarrow> (c, Some e)
                     | Inr gid \<Rightarrow>
                         if gid = 0 then (c, None)
                         else
                           (let (c1, gp) = get_player c gid;
                                (gp', raised) = apply_action E gp action payload
                            in (put_player c1 gid gp', raised))))))"

section \<open>The control loop\<close>

text \<open>
  \<^verbatim>\<open>bytes.splitlines()\<close>: lines end at \<^verbatim>\<open>\n\<close>, \<^verbatim>\<open>\r\<close> or \<^verbatim>\<open>\r\n\<close>, the line ends are
  dropped, and bytes after the last line end form a last line.  The first argument is
  the line read so far, reversed.
\<close>

fun splitlines_from :: "string \<Rightarrow> string \<Rightarrow> string list" where
  "splitlines_from acc [] = (if acc = [] then [] else [rev acc])"
| "splitlines_from acc (c # cs) =
     (if c = CHR 0x0A then rev acc # splitlines_from [] cs
      else if c = CHR 0x0D then
        (case cs of
           [] \<Rightarrow> [rev acc]
         | d # ds \<Rightarrow>
             if d = CHR 0x0A then rev acc # splitlines_from [] ds
             else rev acc # splitlines_from [] (d # ds))
      else splitlines_from (c # acc) cs)"

definition splitlines :: "string \<Rightarrow> string list" where
  "splitlines raw = splitlines_from [] raw"

text \<open>
  The start of \<^verbatim>\<open>_control_loop\<close>: the read position is the size of the file, or 0 when
  \<^verbatim>\<open>stat\<close> raises (the argument is \<open>None\<close> then).
\<close>

definition control_attach :: "cog \<Rightarrow> nat option \<Rightarrow> cog" where
  "control_attach c st_size = c\<lparr>control_pos := (case st_size of Some n \<Rightarrow> n | None \<Rightarrow> 0)\<rparr>"

text \<open>
  \<^verbatim>\<open>f.seek(pos); raw = f.read(); pos = f.tell()\<close> on a file with the given bytes: the
  bytes from the position to the end of the file, and the position after them.
\<close>

definition control_read :: "string \<Rightarrow> nat \<Rightarrow> string \<times> nat" where
  "control_read file pos = (drop pos file, pos + length (drop pos file))"

text \<open>
  The \<^verbatim>\<open>for line in raw.splitlines()\<close> loop: a line that does not decode, or whose
  command raises, is skipped; what the command changed before it raised stays.
\<close>

fun process_lines :: "env \<Rightarrow> cog \<Rightarrow> string list \<Rightarrow> cog" where
  "process_lines E c [] = c"
| "process_lines E c (line # rest) =
     (case json_loads E line of
        None \<Rightarrow> process_lines E c rest
      | Some evt \<Rightarrow> process_lines E (fst (apply_control E c evt)) rest)"

text \<open>One pass of the \<^verbatim>\<open>while True\<close> loop of \<^verbatim>\<open>_control_loop\<close> on a readable file.\<close>

definition control_tick :: "env \<Rightarrow> cog \<Rightarrow> string \<Rightarrow> cog" where
  "control_tick E c file =
     (let (raw, pos) = control_read file (control_pos c);
          c1 = c\<lparr>control_pos := pos\<rparr>
      in if raw = [] then c1 else process_lines E c1 (splitlines raw))"

text \<open>
  The successive contents of a log that only grows: each entry is the previous content
  with the next chunk of bytes appended.
\<close>

fun appended :: "string \<Rightarrow> string list \<Rightarrow> string list" where
  "appended file [] = []"
| "appended file (chunk # chunks) = (file @ chunk) # appended (file @ chunk) chunks"

text \<open>
  As many passes of the \<^verbatim>\<open>while True\<close> loop as the list has entries; each pass finds
  the next entry in the file.
\<close>

fun control_loop :: "env \<Rightarrow> cog \<Rightarrow> string list \<Rightarrow> cog" where
  "control_loop E c [] = c"
| "control_loop E c (file # files) = control_loop E (control_tick E c file) files"

section \<open>Slash commands\<close>

text \<open>
  The state changes of \<^verbatim>\<open>/music volume\<close>, \<^verbatim>\<open>/music loop\<close>, \<^verbatim>\<open>/music leave\<close> and
  \<^verbatim>\<open>/music remove\<close>; the replies sent to the user are left out.  The mode of
  \<^verbatim>\<open>/music loop\<close> is one of the four declared choices.
\<close>

datatype loop_choice = ChoiceOff | ChoiceTrack | ChoiceQueue | ChoiceAuto

fun choice_value :: "loop_choice \<Rightarrow> string" where
  "choice_value ChoiceOff = ''off''"
| "choice_value ChoiceTrack = ''track''"
| "choice_value ChoiceQueue = ''queue''"
| "choice_value ChoiceAuto = ''auto''"

definition cmd_volume :: "cog \<Rightarrow> int \<Rightarrow> int \<Rightarrow> cog" where
  "cmd_volume c gid level =
     (let (c1, gp) = get_player c gid in put_player c1 gid (set_volume gp level))"

definition cmd_loop :: "cog \<Rightarrow> int \<Rightarrow> loop_choice \<Rightarrow> cog" where
  "cmd_loop c gid mode =
     (let (c1, gp) = get_player c gid in put_player c1 gid (gp\<lparr>loop_mode := choice_value mode\<rparr>))"

definition cmd_leave :: "cog \<Rightarrow> int \<Rightarrow> cog" where
  "cmd_leave c gid =
     (let (c1, gp) = get_player c gid in put_player c1 gid (disconnect gp))"

definition cmd_remove :: "cog \<Rightarrow> int \<Rightarrow> int \<Rightarrow> py_error + (cog \<times> track option)" where
  "cmd_remove c gid index =
     (let (c1, gp) = get_player c gid
      in case q_remove (queue gp) index of
           Inl e \<Rightarrow> Inl e
         | Inr (tr, rest) \<Rightarrow> Inr (put_player c1 gid (gp\<lparr>queue := rest\<rparr>), tr))"

section \<open>Records and states used in the examples\<close>

text \<open>
  The decoded form of the control record
  \<^verbatim>\<open>{"action": action, "payload": {key: sid, ...rest}}\<close>.
\<close>

definition control_record :: "string \<Rightarrow> string \<Rightarrow> int \<Rightarrow> (string \<times> jval) list \<Rightarrow> jval" where
  "control_record action key sid rest =
     JDict [(''action'', JStr action), (''payload'', JDict ((key, JInt sid) # rest))]"

definition example_track :: "string \<Rightarrow> track" where
  "example_track name =
     \<lparr>title = name, url = ''https://example.org/'' @ name,
      webpage_url = ''https://example.org/watch/'' @ name, duration = 180,
      requester_id = 0, thumbnail = None, added_at = 0\<rparr>"

text \<open>One line of the control log, without its line end, and the same line cut in two.\<close>

definition volume_line :: string where
  "volume_line = ''{\"action\":\"volume\",\"payload\":{\"guild_id\":7,\"level\":50}}''"

definition volume_line_head :: string where
  "volume_line_head = ''{\"action\":\"volume\",\"payl''"

definition volume_line_tail :: string where
  "volume_line_tail = ''oad\":{\"guild_id\":7,\"level\":50}}''"

text \<open>A second line, which asks for level 80.\<close>

definition volume_line_80 :: string where
  "volume_line_80 = ''{\"action\":\"volume\",\"payload\":{\"guild_id\":7,\"level\":80}}''"

text \<open>
  The collaborators of a process in which yt-dlp is not installed (both helpers then
  return nothing), with a shuffle that reverses.  The decoder stands for \<^verbatim>\<open>json.loads\<close>
  on the lines the examples feed it: \<open>volume_line\<close> and \<open>volume_line_80\<close>, which
  decode, and the two pieces of \<open>volume_line\<close>, which do not.  No example converts a string to an integer or a non-string to a string,
  and no example holds a string with a character beyond ASCII.
\<close>

definition example_env :: env where
  "example_env =
     \<lparr>ytdl_search = (\<lambda>query. []),
      extract_audio_url = (\<lambda>query. None),
      random_shuffle = rev,
      json_loads = (\<lambda>line. if line = volume_line
                            then Some (control_record ''volume'' ''guild_id'' 7 [(''level'', JInt 50)])
                            else if line = volume_line_80
                            then Some (control_record ''volume'' ''guild_id'' 7 [(''level'', JInt 80)])
                            else None),
      int_of_str = (\<lambda>s. None),
      str_of = (\<lambda>v. []),
      unicode_lower = (\<lambda>s. s),
      unicode_strip = (\<lambda>s. s)\<rparr>"

text \<open>
  A player of guild 7 that is connected, has two tracks queued and whose loop task was
  started, and a cog that holds it.
\<close>

definition example_player :: player where
  "example_player =
     \<lparr>guild_id = 7, queue = [example_track ''A'', example_track ''B''], volume = 35,
      loop_mode = ''off'', current = None,
      voice = Some \<lparr>is_connected = True, play_state = NotPlaying, source_volume = None\<rparr>,
      next_event = False, play_task = Some TaskPending, vc_ready = True\<rparr>"

definition example_cog :: cog where
  "example_cog = \<lparr>players = [7 \<mapsto> example_player], control_pos = 0\<rparr>"

text \<open>
  The same player in repeat mode \<^verbatim>\<open>track\<close> with a current track, for which
  \<open>example_env\<close> finds no URL.
\<close>

definition stuck_player :: player where
  "stuck_player = example_player\<lparr>current := Some (example_track ''X''), loop_mode := ''track''\<rparr>"

section \<open>Queue edits\<close>

lemma py_pop_in_range:
  assumes "0 \<le> i" and "i < int (length xs)"
  shows "py_pop xs i = Inr (xs ! nat i, take (nat i) xs @ drop (Suc (nat i)) xs)"
  using assms by (simp add: py_pop_def Let_def)

lemma py_insert_in_range:
  assumes "0 \<le> j" and "j \<le> int (length xs)"
  shows "py_insert xs j x = take (nat j) xs @ x # drop (nat j) xs"
  using assms by (simp add: py_insert_def Let_def)

lemma mset_remove_nth:
  assumes "k < length xs"
  shows "mset (take k xs @ drop (Suc k) xs) + {#xs ! k#} = mset xs"
proof -
  have "xs = take k xs @ xs ! k # drop (Suc k) xs"
    using assms by (simp add: id_take_nth_drop)
  then have "mset xs = mset (take k xs @ xs ! k # drop (Suc k) xs)"
    by simp
  then show ?thesis by simp
qed

lemma mset_insert_at:
  "mset (take k ys @ x # drop k ys) = mset ys + {#x#}"
proof -
  have split: "mset (take k ys) + mset (drop k ys) = mset ys"
    by (simp only: mset_append [symmetric] append_take_drop_id)
  have "mset (take k ys @ x # drop k ys) = mset (take k ys) + mset (drop k ys) + {#x#}"
    by simp
  then show ?thesis
    by (simp only: split)
qed

lemma q_move_in_range:
  assumes "1 \<le> src" "src \<le> int (length q)" "1 \<le> dst" "dst \<le> int (length q)"
  defines "i \<equiv> nat (src - 1)" and "j \<equiv> nat (dst - 1)"
  defines "rest \<equiv> take i q @ drop (Suc i) q"
  shows "q_move q src dst = Inr (True, take j rest @ q ! i # drop j rest)"
proof -
  have i: "i < length q" and j: "j < length q"
    using assms by (auto simp: i_def j_def)
  have pop: "py_pop q (src - 1) = Inr (q ! i, rest)"
    using assms(1,2) by (simp add: py_pop_in_range i_def rest_def)
  have "length rest = length q - 1"
    using i by (simp add: rest_def)
  then have "dst - 1 \<le> int (length rest)"
    using assms(3,4) by simp
  then have ins: "py_insert rest (dst - 1) (q ! i) = take j rest @ q ! i # drop j rest"
    using assms(3) by (simp add: py_insert_in_range j_def)
  show ?thesis
    using assms(1-4) pop ins by (simp add: q_move_def Let_def)
qed

section \<open>The player map and the dispatch of a control record\<close>

lemma put_player_same:
  "players c gid = Some gp \<Longrightarrow> put_player c gid gp = c"
  by (simp add: put_player_def fun_upd_idem)

lemma put_player_others:
  "g \<noteq> gid \<Longrightarrow> players (put_player c gid gp) g = players c g"
  by (simp add: put_player_def split: option.splits)

lemma put_player_present:
  "players c gid = Some old \<Longrightarrow> put_player c gid gp = c\<lparr>players := (players c)(gid \<mapsto> gp)\<rparr>"
  by (simp add: put_player_def)

lemma put_player_absent:
  "players c gid = None \<Longrightarrow> put_player c gid gp = c"
  by (simp add: put_player_def)

lemma get_player_present:
  "players c gid = Some gp \<Longrightarrow> get_player c gid = (c, gp)"
  by (simp add: get_player_def)

lemma get_player_absent:
  "players c gid = None \<Longrightarrow>
     get_player c gid = (c\<lparr>players := (players c)(gid \<mapsto> new_player gid)\<rparr>, new_player gid)"
  by (simp add: get_player_def)

lemma get_player_holds:
  "get_player c gid = (c1, gp) \<Longrightarrow> players c1 gid = Some gp"
  by (auto simp: get_player_def split: option.splits)

lemma get_player_others:
  "get_player c gid = (c1, gp) \<Longrightarrow> g \<noteq> gid \<Longrightarrow> players c1 g = players c g"
  by (auto simp: get_player_def split: option.splits)

lemma get_player_keeps:
  "get_player c gid = (c1, gp) \<Longrightarrow> players c g = Some p \<Longrightarrow> players c1 g = Some p"
  by (auto simp: get_player_def split: option.splits)

lemma put_after_get:
  "put_player (fst (get_player c gid)) gid gp = c\<lparr>players := (players c)(gid \<mapsto> gp)\<rparr>"
  by (simp add: get_player_def put_player_def split: option.splits)

lemma put_after_get_pair:
  "get_player c gid = (c1, old) \<Longrightarrow>
     put_player c1 gid gp = c\<lparr>players := (players c)(gid \<mapsto> gp)\<rparr>"
  using put_after_get [of c gid gp] by simp

lemma apply_control_dispatch:
  assumes "str_lower E (py_or (dget ev ''action'') (JStr [])) = Inr action"
    and "as_dict (py_or (dget ev ''payload'') (JDict [])) = Inr payload"
    and "py_int E (py_or (dget payload ''guild_id'') (JInt 0)) = Inr gid"
    and "gid \<noteq> 0"
  shows "apply_control E c (JDict ev) =
           (put_player (fst (get_player c gid)) gid
              (fst (apply_action E (snd (get_player c gid)) action payload)),
            snd (apply_action E (snd (get_player c gid)) action payload))"
  using assms by (simp add: apply_control_def split: prod.splits)

lemma apply_control_dropped:
  assumes "str_lower E (py_or (dget ev ''action'') (JStr [])) = Inr action"
    and "as_dict (py_or (dget ev ''payload'') (JDict [])) = Inr payload"
    and "\<not> truthy (dget payload ''guild_id'')"
  shows "apply_control E c (JDict ev) = (c, None)"
  using assms by (simp add: apply_control_def py_or_def)

lemma apply_action_unrecognized:
  assumes "action \<notin> set [''pause'', ''resume'', ''skip'', ''stop'', ''shuffle'', ''leave'',
                         ''clear'', ''loop'', ''volume'', ''play'', ''playtop'',
                         ''queue_remove'', ''queue_move'']"
  shows "apply_action E gp action payload = (gp, None)"
  using assms by (simp add: apply_action_def)

lemma control_record_action:
  "is_ascii a \<Longrightarrow>
     str_lower E (py_or (dget [(''action'', JStr a), (''payload'', p)] ''action'') (JStr [])) =
       Inr (map lower_char a)"
  by (simp add: dget_def py_or_def is_ascii_def)

lemma control_record_payload:
  "as_dict (py_or (dget [(''action'', JStr a), (''payload'', JDict (kv # kvs))] ''payload'')
             (JDict [])) = Inr (kv # kvs)"
  by (simp add: dget_def py_or_def)

lemma control_record_dispatch:
  assumes "gid \<noteq> 0" and "is_ascii a" and "\<forall>ch \<in> set a. lower_char ch = ch"
  shows "apply_control E c (control_record a ''guild_id'' gid rest) =
           (put_player (fst (get_player c gid)) gid
              (fst (apply_action E (snd (get_player c gid)) a ((''guild_id'', JInt gid) # rest))),
            snd (apply_action E (snd (get_player c gid)) a ((''guild_id'', JInt gid) # rest)))"
proof -
  have low: "map lower_char a = a"
    using assms(3) by (simp add: map_idI)
  have a: "str_lower E (py_or (dget [(''action'', JStr a),
              (''payload'', JDict ((''guild_id'', JInt gid) # rest))] ''action'') (JStr [])) = Inr a"
    using assms(2) by (simp add: control_record_action low)
  have g: "py_int E (py_or (dget ((''guild_id'', JInt gid) # rest) ''guild_id'') (JInt 0)) = Inr gid"
    using assms(1) by (simp add: dget_def py_or_def)
  show ?thesis
    unfolding control_record_def
    by (rule apply_control_dispatch [OF a control_record_payload g assms(1)])
qed

lemma apply_control_queue_remove:
  assumes "gid \<noteq> 0" and "players c gid = Some gp"
  shows "apply_control E c (control_record ''queue_remove'' ''guild_id'' gid [(''index'', JInt index)]) =
           (case q_remove (queue gp) index of
              Inl e \<Rightarrow> (c, Some e)
            | Inr (removed, rest) \<Rightarrow> (put_player c gid (gp\<lparr>queue := rest\<rparr>), None))"
proof -
  have act: "apply_action E gp ''queue_remove''
               [(''guild_id'', JInt gid), (''index'', JInt index)] =
             (case q_remove (queue gp) index of
                Inl e \<Rightarrow> (gp, Some e)
              | Inr (removed, rest) \<Rightarrow> (gp\<lparr>queue := rest\<rparr>, None))"
    by (simp add: apply_action_def dget_def py_or_def split: sum.splits prod.splits)
  show ?thesis
    using assms
    by (simp add: apply_control_def control_record_def dget_def py_or_def
        lower_char_def is_ascii_def get_player_present act put_player_same split: sum.splits prod.splits)
qed

section \<open>Volume and repeat mode\<close>

lemma set_volume_stores_clamped:
  "volume (set_volume gp vol) = max 1 (min 200 vol)
   \<and> 1 \<le> volume (set_volume gp vol) \<and> volume (set_volume gp vol) \<le> 200"
  by (simp add: set_volume_def Let_def split: option.splits)

lemma apply_action_volume:
  "apply_action E gp ''volume'' ((''guild_id'', JInt gid) # [(''level'', JInt level)]) =
     (set_volume gp (if level = 0 then 100 else level), None)"
  by (simp add: apply_action_def dget_def py_or_def)

lemma control_volume_nonzero:
  assumes "gid \<noteq> 0" and "level \<noteq> 0"
  shows "map_option volume
           (players (fst (apply_control E c
              (control_record ''volume'' ''guild_id'' gid [(''level'', JInt level)]))) gid) =
         Some (max 1 (min 200 level))"
  using assms
  by (simp add: control_record_dispatch lower_char_def is_ascii_def apply_action_volume put_after_get put_after_get_pair
      set_volume_stores_clamped)

lemma control_volume_500:
  "map_option volume
     (players (fst (apply_control E c
        (control_record ''volume'' ''guild_id'' 7 [(''level'', JInt 500)]))) 7) = Some 200"
  by (simp add: control_volume_nonzero)

lemma cmd_loop_mode:
  "map_option loop_mode (players (cmd_loop c gid mode) gid) = Some (choice_value mode)
   \<and> choice_value mode \<in> {''off'', ''track'', ''queue'', ''auto''}"
  by (cases mode) (simp_all add: cmd_loop_def put_after_get put_after_get_pair split: prod.splits)

section \<open>Reading the control log\<close>

lemma control_pos_get_player: "get_player c gid = (c1, gp) \<Longrightarrow> control_pos c1 = control_pos c"
  by (auto simp: get_player_def split: option.splits)

lemma control_pos_apply_control: "control_pos (fst (apply_control E c evt)) = control_pos c"
  by (auto simp: apply_control_def put_after_get_pair
      split: sum.splits prod.splits)

lemma control_pos_process_lines: "control_pos (process_lines E c ls) = control_pos c"
  by (induction ls arbitrary: c) (simp_all add: control_pos_apply_control split: option.splits)

lemma splitlines_from_line:
  assumes "CHR 0x0A \<notin> set l" and "CHR 0x0D \<notin> set l"
  shows "splitlines_from acc (l @ CHR 0x0A # rest) = (rev acc @ l) # splitlines_from [] rest"
  using assms by (induction l arbitrary: acc) auto

lemma splitlines_from_fragment:
  assumes "CHR 0x0A \<notin> set l" and "CHR 0x0D \<notin> set l"
  shows "splitlines_from acc l = (if acc = [] \<and> l = [] then [] else [rev acc @ l])"
  using assms by (induction l arbitrary: acc) auto

lemma splitlines_records:
  assumes "\<forall>l \<in> set ls. CHR 0x0A \<notin> set l \<and> CHR 0x0D \<notin> set l"
    and "CHR 0x0A \<notin> set frag" and "CHR 0x0D \<notin> set frag"
  shows "splitlines (concat (map (\<lambda>l. l @ [CHR 0x0A]) ls) @ frag) =
           ls @ (if frag = [] then [] else [frag])"
  using assms unfolding splitlines_def
proof (induction ls)
  case Nil
  then show ?case by (simp add: splitlines_from_fragment)
next
  case (Cons l ls)
  then show ?case by (simp add: splitlines_from_line)
qed

lemma control_tick_appended:
  assumes "control_pos c = length old"
  shows "control_tick E c (old @ new) =
           process_lines E (c\<lparr>control_pos := length old + length new\<rparr>) (splitlines new)"
  using assms by (cases "new = []") (simp_all add: control_tick_def control_read_def splitlines_def)

lemma apply_control_control_pos:
  "apply_control E (c\<lparr>control_pos := n\<rparr>) evt =
     ((fst (apply_control E c evt))\<lparr>control_pos := n\<rparr>, snd (apply_control E c evt))"
  by (simp add: apply_control_def get_player_def put_player_def
      split: sum.splits prod.splits option.splits)

lemma process_lines_control_pos:
  "process_lines E (c\<lparr>control_pos := n\<rparr>) ls = (process_lines E c ls)\<lparr>control_pos := n\<rparr>"
  by (induction ls arbitrary: c) (simp_all add: apply_control_control_pos split: option.splits)

lemma process_lines_append:
  "process_lines E c (xs @ ys) = process_lines E (process_lines E c xs) ys"
  by (induction xs arbitrary: c) (simp_all split: option.splits)

lemma control_loop_appended:
  assumes "control_pos c = length hist"
  shows "control_loop E c (appended hist chunks) =
           (process_lines E c (concat (map splitlines chunks)))
             \<lparr>control_pos := length (hist @ concat chunks)\<rparr>"
  using assms
proof (induction chunks arbitrary: c hist)
  case Nil
  then show ?case by simp
next
  case (Cons chunk chunks)
  let ?c1 = "control_tick E c (hist @ chunk)"
  have t: "?c1 = (process_lines E c (splitlines chunk))\<lparr>control_pos := length (hist @ chunk)\<rparr>"
    using Cons.prems by (simp add: control_tick_appended process_lines_control_pos)
  then have p1: "control_pos ?c1 = length (hist @ chunk)"
    by simp
  have "control_loop E c (appended hist (chunk # chunks)) =
          control_loop E ?c1 (appended (hist @ chunk) chunks)"
    by simp
  also have "\<dots> = (process_lines E ?c1 (concat (map splitlines chunks)))
             \<lparr>control_pos := length ((hist @ chunk) @ concat chunks)\<rparr>"
    using p1 by (rule Cons.IH)
  also have "\<dots> = (process_lines E c (concat (map splitlines (chunk # chunks))))
             \<lparr>control_pos := length (hist @ concat (chunk # chunks))\<rparr>"
    by (simp add: t process_lines_control_pos process_lines_append)
  finally show ?case .
qed

lemma process_lines_foldl:
  "process_lines E c ls =
     foldl (\<lambda>c evt. fst (apply_control E c evt)) c (List.map_filter (json_loads E) ls)"
  by (induction ls arbitrary: c) (simp_all add: map_filter_simps split: option.splits)

lemma map_filter_decoded:
  assumes "\<forall>l \<in> set ls. json_loads E l = Some (dec l)"
  shows "List.map_filter (json_loads E) ls = map dec ls"
  using assms by (induction ls) (simp_all add: map_filter_simps)

lemma splitlines_batches:
  assumes "\<forall>ls \<in> set lss. \<forall>l \<in> set ls. CHR 0x0A \<notin> set l \<and> CHR 0x0D \<notin> set l"
  shows "concat (map splitlines (map (\<lambda>ls. concat (map (\<lambda>l. l @ [CHR 0x0A]) ls)) lss)) =
           concat lss"
  using assms
proof (induction lss)
  case Nil
  then show ?case by simp
next
  case (Cons ls lss)
  have "splitlines (concat (map (\<lambda>l. l @ [CHR 0x0A]) ls) @ []) = ls @ (if [] = ([] :: string) then [] else [[]])"
    using Cons.prems by (intro splitlines_records) simp_all
  then have "splitlines (concat (map (\<lambda>l. l @ [CHR 0x0A]) ls)) = ls"
    by simp
  then show ?case
    using Cons by simp
qed

section \<open>The scheduler loop\<close>

text \<open>
  Claim C1.  When the completion signal fires while a track is current: in repeat mode
  \<^verbatim>\<open>track\<close> the player is left as it is, so the current track and the queue are
  unchanged and the same item is played again; in mode \<^verbatim>\<open>queue\<close> the finished track is
  appended to the queue, whose length grows by one, and the current slot is emptied; in
  modes \<^verbatim>\<open>off\<close> and \<^verbatim>\<open>auto\<close> the current slot is emptied and the queue is unchanged.
\<close>

theorem post_completion_repeat_modes:
  assumes "current gp = Some t"
  shows "(loop_mode gp = ''track'' \<longrightarrow>
            post_completion (completion_signal gp) = completion_signal gp \<and>
            current (post_completion (completion_signal gp)) = Some t \<and>
            queue (post_completion (completion_signal gp)) = queue gp)
       \<and> (loop_mode gp = ''queue'' \<longrightarrow>
            queue (post_completion (completion_signal gp)) = queue gp @ [t] \<and>
            length (queue (post_completion (completion_signal gp))) = length (queue gp) + 1 \<and>
            current (post_completion (completion_signal gp)) = None)
       \<and> (loop_mode gp = ''off'' \<or> loop_mode gp = ''auto'' \<longrightarrow>
            current (post_completion (completion_signal gp)) = None \<and>
            queue (post_completion (completion_signal gp)) = queue gp)"
  using assms by (auto simp: post_completion_def completion_signal_def)

theorem post_completion_repeat_modes_witness:
  "current (post_completion (completion_signal
      (example_player\<lparr>current := Some (example_track ''X''), loop_mode := ''track''\<rparr>))) =
     Some (example_track ''X'')
   \<and> queue (post_completion (completion_signal
      (example_player\<lparr>current := Some (example_track ''X''), loop_mode := ''track''\<rparr>))) =
     [example_track ''A'', example_track ''B'']
   \<and> queue (post_completion (completion_signal
      (example_player\<lparr>current := Some (example_track ''X''), loop_mode := ''queue''\<rparr>))) =
     [example_track ''A'', example_track ''B'', example_track ''X'']
   \<and> current (post_completion (completion_signal
      (example_player\<lparr>current := Some (example_track ''X''), loop_mode := ''queue''\<rparr>))) = None
   \<and> current (post_completion (completion_signal
      (example_player\<lparr>current := Some (example_track ''X''), loop_mode := ''off''\<rparr>))) = None
   \<and> queue (post_completion (completion_signal
      (example_player\<lparr>current := Some (example_track ''X''), loop_mode := ''auto''\<rparr>))) =
     [example_track ''A'', example_track ''B'']"
  using post_completion_repeat_modes
          [of "example_player\<lparr>current := Some (example_track ''X''), loop_mode := ''track''\<rparr>"
              "example_track ''X''"]
        post_completion_repeat_modes
          [of "example_player\<lparr>current := Some (example_track ''X''), loop_mode := ''queue''\<rparr>"
              "example_track ''X''"]
        post_completion_repeat_modes
          [of "example_player\<lparr>current := Some (example_track ''X''), loop_mode := ''off''\<rparr>"
              "example_track ''X''"]
        post_completion_repeat_modes
          [of "example_player\<lparr>current := Some (example_track ''X''), loop_mode := ''auto''\<rparr>"
              "example_track ''X''"]
  by (simp add: example_player_def completion_signal_def)

lemma extraction_failure_dispatch:
  assumes "voice gp \<noteq> None"
    and "extract_audio_url E (if url t \<noteq> [] then url t else webpage_url t) = None
         \<or> extract_audio_url E (if url t \<noteq> [] then url t else webpage_url t) = Some []"
  shows "(current gp = Some t \<longrightarrow> play_current_track E gp = Inr (completion_signal gp))
       \<and> (vc_ready gp \<and> current gp = Some t \<longrightarrow>
            player_loop_body E gp = Cycled (post_completion (completion_signal gp)))
       \<and> (vc_ready gp \<and> current gp = None \<and> queue gp = t # rest \<longrightarrow>
            player_loop_body E gp =
              Cycled (post_completion (completion_signal (gp\<lparr>queue := rest, current := Some t\<rparr>))))
       \<and> (vc_ready gp \<and> (current gp = Some t \<or> current gp = None \<and> queue gp = t # rest) \<and>
          loop_mode gp \<noteq> ''track'' \<longrightarrow>
            (\<exists>gp'. player_loop_body E gp = Cycled gp' \<and> current gp' = None))"
proof -
  obtain v where v: "voice gp = Some v"
    using assms(1) by auto
  have play: "play_current_track E g = Inr (completion_signal g)"
    if "voice g = Some v" and "current g = Some t" for g
    using that assms(2) by (auto simp: play_current_track_def completion_signal_def Let_def)
  have cs: "completion_signal (g\<lparr>next_event := False\<rparr>) = completion_signal g" for g :: player
    by (simp add: completion_signal_def)
  have ne: "next_event (completion_signal g)" for g
    by (simp add: completion_signal_def)
  have a: "current gp = Some t \<Longrightarrow> play_current_track E gp = Inr (completion_signal gp)"
    using v by (rule play)
  have b: "player_loop_body E gp = Cycled (post_completion (completion_signal gp))"
    if "vc_ready gp" and "current gp = Some t"
  proof -
    have "play_current_track E (gp\<lparr>next_event := False\<rparr>) =
            Inr (completion_signal (gp\<lparr>next_event := False\<rparr>))"
      using v that by (intro play) simp_all
    then show ?thesis
      using that by (simp add: player_loop_body_def Let_def cs ne)
  qed
  have c: "player_loop_body E gp =
              Cycled (post_completion (completion_signal (gp\<lparr>queue := rest, current := Some t\<rparr>)))"
    if "vc_ready gp" and "current gp = None" and "queue gp = t # rest"
  proof -
    have "play_current_track E (gp\<lparr>next_event := False, queue := rest, current := Some t\<rparr>) =
            Inr (completion_signal (gp\<lparr>next_event := False, queue := rest, current := Some t\<rparr>))"
      using v by (intro play) simp_all
    moreover have "completion_signal (gp\<lparr>next_event := False, queue := rest, current := Some t\<rparr>) =
                   completion_signal (gp\<lparr>queue := rest, current := Some t\<rparr>)"
      by (simp add: completion_signal_def)
    ultimately show ?thesis
      using that by (simp add: player_loop_body_def Let_def ne)
  qed
  have d: "current g = Some t \<Longrightarrow> loop_mode g \<noteq> ''track'' \<Longrightarrow>
             current (post_completion (completion_signal g)) = None" for g
    by (simp add: post_completion_def completion_signal_def)
  have e: "\<exists>gp'. player_loop_body E gp = Cycled gp' \<and> current gp' = None"
    if "vc_ready gp" and "current gp = Some t \<or> current gp = None \<and> queue gp = t # rest"
      and "loop_mode gp \<noteq> ''track''"
    using that b c d [of gp] d [of "gp\<lparr>queue := rest, current := Some t\<rparr>"] by auto
  show ?thesis
    using a b c e by blast
qed

lemma extraction_failure_track_mode:
  assumes "vc_ready gp" and "voice gp \<noteq> None" and "current gp = Some t"
    and "loop_mode gp = ''track''"
    and "extract_audio_url E (if url t \<noteq> [] then url t else webpage_url t) = None
         \<or> extract_audio_url E (if url t \<noteq> [] then url t else webpage_url t) = Some []"
  shows "player_loop_body E gp = Cycled (completion_signal gp)"
    and "player_loop_body E (completion_signal gp) = Cycled (completion_signal gp)"
proof -
  have pc: "post_completion (completion_signal gp) = completion_signal gp"
    using assms(3,4) by (simp add: post_completion_def completion_signal_def)
  show "player_loop_body E gp = Cycled (completion_signal gp)"
    using extraction_failure_dispatch [OF assms(2,5), of rest] assms(1,3) pc by simp
  have "player_loop_body E (completion_signal gp) =
          Cycled (post_completion (completion_signal (completion_signal gp)))"
    using extraction_failure_dispatch [of "completion_signal gp" E t] assms
    by (simp add: completion_signal_def)
  then show "player_loop_body E (completion_signal gp) = Cycled (completion_signal gp)"
    using pc by (simp add: completion_signal_def)
qed

text \<open>
  Claim C7.  When a voice client is present and \<^verbatim>\<open>extract_audio_url\<close> returns nothing
  for the track to play, \<^verbatim>\<open>_play_current_track\<close> sets the completion signal and returns
  without an exception, and the pass through the loop body goes on to the repeat-mode
  step at once (\<open>extraction_failure_dispatch\<close>).  That step does not skip the track in
  repeat mode \<^verbatim>\<open>track\<close>: the track stays current, the next pass tries it again, fails
  again, and so on (\<open>extraction_failure_track_mode\<close>).  For the player below, with the
  track X current, two tracks queued and no URL for X, a pass of the loop ends in a state
  that the next pass leaves as it is: X is still current and the queue still holds both
  tracks.
\<close>

theorem broken_track_repeats_forever:
  "player_loop_body example_env stuck_player = Cycled (stuck_player\<lparr>next_event := True\<rparr>)
   \<and> player_loop_body example_env (stuck_player\<lparr>next_event := True\<rparr>) =
       Cycled (stuck_player\<lparr>next_event := True\<rparr>)
   \<and> current (stuck_player\<lparr>next_event := True\<rparr>) = Some (example_track ''X'')
   \<and> queue (stuck_player\<lparr>next_event := True\<rparr>) = [example_track ''A'', example_track ''B'']
   \<and> extract_audio_url example_env (url (example_track ''X'')) = None"
  by (simp add: stuck_player_def example_player_def example_env_def player_loop_body_def
      play_current_track_def post_completion_def Let_def example_track_def)

text \<open>
  Claim C6, as stated, fails: the control action \<^verbatim>\<open>leave\<close> on a player whose loop task
  is pending leaves the task pending; \<^verbatim>\<open>disconnect\<close> never cancels it.
\<close>

theorem leave_keeps_loop_task:
  "map_option play_task (players example_cog 7) = Some (Some TaskPending)
   \<and> map_option play_task
       (players (fst (apply_control example_env example_cog
          (control_record ''leave'' ''guild_id'' 7 []))) 7) = Some (Some TaskPending)
   \<and> \<not> task_done TaskPending"
  by (simp add: control_record_dispatch lower_char_def is_ascii_def apply_action_def
      put_player_def disconnect_def task_done_def example_cog_def example_player_def
      get_player_def)

text \<open>
  Claim C6, amended.  \<^verbatim>\<open>disconnect\<close> empties the queue and the current slot, drops the
  voice client, sets the completion signal and clears the voice-ready flag; it leaves the
  loop task as it is, and the loop body then waits for a voice client.  Doing it twice
  is the same as doing it once.  The control action \<^verbatim>\<open>leave\<close> and \<^verbatim>\<open>/music leave\<close> do
  exactly this to the player of the guild.
\<close>

theorem disconnect_teardown:
  "queue (disconnect gp) = [] \<and> current (disconnect gp) = None \<and>
   voice (disconnect gp) = None \<and> next_event (disconnect gp) \<and> \<not> vc_ready (disconnect gp) \<and>
   play_task (disconnect gp) = play_task gp \<and>
   disconnect (disconnect gp) = disconnect gp \<and>
   player_loop_body E (disconnect gp) = WaitVoice (disconnect gp) \<and>
   (gid \<noteq> 0 \<longrightarrow>
      apply_control E c (control_record ''leave'' ''guild_id'' gid rest) =
        (put_player (fst (get_player c gid)) gid (disconnect (snd (get_player c gid))), None)) \<and>
   cmd_leave c gid = put_player (fst (get_player c gid)) gid (disconnect (snd (get_player c gid)))"
proof -
  have act: "apply_action E g ''leave'' p = (disconnect g, None)" for g p
    by (simp add: apply_action_def)
  have leave: "gid \<noteq> 0 \<Longrightarrow>
      apply_control E c (control_record ''leave'' ''guild_id'' gid rest) =
        (put_player (fst (get_player c gid)) gid (disconnect (snd (get_player c gid))), None)"
    by (simp add: control_record_dispatch lower_char_def is_ascii_def act)
  have cmd: "cmd_leave c gid =
      put_player (fst (get_player c gid)) gid (disconnect (snd (get_player c gid)))"
    by (simp add: cmd_leave_def split: prod.splits)
  have st: "queue (disconnect gp) = [] \<and> current (disconnect gp) = None \<and>
     voice (disconnect gp) = None \<and> next_event (disconnect gp) \<and> \<not> vc_ready (disconnect gp) \<and>
     play_task (disconnect gp) = play_task gp \<and>
     disconnect (disconnect gp) = disconnect gp \<and>
     player_loop_body E (disconnect gp) = WaitVoice (disconnect gp)"
    by (simp add: disconnect_def q_clear_def player_loop_body_def)
  show ?thesis
    using st leave cmd by simp
qed

theorem disconnect_teardown_witness:
  "apply_control example_env example_cog (control_record ''leave'' ''guild_id'' 7 []) =
     (example_cog\<lparr>players := [7 \<mapsto> example_player\<lparr>queue := [], current := None,
         next_event := True, voice := None, vc_ready := False\<rparr>]\<rparr>, None)"
  using disconnect_teardown [of example_player example_env 7 example_cog "[]"]
  by (simp add: example_cog_def get_player_def put_player_def disconnect_def q_clear_def)

section \<open>The queue\<close>

text \<open>
  Claim C3.  For every queue and 1-based indices \<open>src\<close>, \<open>dst\<close>: when both lie in
  \<open>[1, length]\<close>, \<^verbatim>\<open>q_move\<close> returns true without raising, keeps the multiset of items
  (and the length), puts the moved item exactly at position \<open>dst\<close>, leaves the other
  items in their order, and is the identity when \<open>src = dst\<close>; when either index is out
  of bounds it returns false and the queue is unchanged.  On \<^verbatim>\<open>[A,B,C]\<close>,
  \<^verbatim>\<open>q_move(3,1)\<close> gives \<^verbatim>\<open>[C,A,B]\<close>.
\<close>

theorem q_move_spec:
  fixes q :: "'a list"
  shows "(1 \<le> src \<and> src \<le> int (length q) \<and> 1 \<le> dst \<and> dst \<le> int (length q) \<longrightarrow>
            (\<exists>q'. q_move q src dst = Inr (True, q') \<and> mset q' = mset q \<and>
                  length q' = length q \<and>
                  q' ! nat (dst - 1) = q ! nat (src - 1) \<and>
                  take (nat (dst - 1)) q' @ drop (Suc (nat (dst - 1))) q' =
                    take (nat (src - 1)) q @ drop (Suc (nat (src - 1))) q \<and>
                  (src = dst \<longrightarrow> q' = q)))
       \<and> (\<not> (1 \<le> src \<and> src \<le> int (length q) \<and> 1 \<le> dst \<and> dst \<le> int (length q)) \<longrightarrow>
            q_move q src dst = Inr (False, q))
       \<and> q_move [A, B, C] 3 1 = Inr (True, [C, A, B])"
proof (intro conjI impI)
  assume r: "1 \<le> src \<and> src \<le> int (length q) \<and> 1 \<le> dst \<and> dst \<le> int (length q)"
  define i where "i = nat (src - 1)"
  define j where "j = nat (dst - 1)"
  define rest where "rest = take i q @ drop (Suc i) q"
  define q' where "q' = take j rest @ q ! i # drop j rest"
  have i: "i < length q" and j: "j < length q"
    using r by (auto simp: i_def j_def)
  have lr: "length rest = length q - 1"
    using i by (simp add: rest_def)
  have jr: "j \<le> length rest"
    using j lr by simp
  have mv: "q_move q src dst = Inr (True, q')"
    using r q_move_in_range [of src q dst] by (simp add: q'_def rest_def i_def j_def)
  have ms: "mset q' = mset q"
  proof -
    have "mset q' = mset rest + {#q ! i#}"
      unfolding q'_def by (rule mset_insert_at)
    also have "\<dots> = mset q"
      unfolding rest_def using i by (rule mset_remove_nth)
    finally show ?thesis .
  qed
  have len: "length q' = length q"
    using ms by (metis size_mset)
  have at: "q' ! j = q ! i"
    using jr by (simp add: q'_def nth_append)
  have others: "take j q' @ drop (Suc j) q' = rest"
    using jr by (simp add: q'_def)
  have same: "src = dst \<longrightarrow> q' = q"
  proof
    assume "src = dst"
    then have ij: "j = i" by (simp add: i_def j_def)
    have "take i rest = take i q" "drop i rest = drop (Suc i) q"
      using i by (simp_all add: rest_def)
    then have "q' = take i q @ q ! i # drop (Suc i) q"
      by (simp add: q'_def ij)
    then show "q' = q"
      using i by (simp add: id_take_nth_drop [symmetric])
  qed
  show "\<exists>q'. q_move q src dst = Inr (True, q') \<and> mset q' = mset q \<and>
                  length q' = length q \<and>
                  q' ! nat (dst - 1) = q ! nat (src - 1) \<and>
                  take (nat (dst - 1)) q' @ drop (Suc (nat (dst - 1))) q' =
                    take (nat (src - 1)) q @ drop (Suc (nat (src - 1))) q \<and>
                  (src = dst \<longrightarrow> q' = q)"
    using mv ms len at others same
    unfolding i_def [symmetric] j_def [symmetric] rest_def [symmetric] by blast
next
  assume "\<not> (1 \<le> src \<and> src \<le> int (length q) \<and> 1 \<le> dst \<and> dst \<le> int (length q))"
  then show "q_move q src dst = Inr (False, q)"
    by (auto simp: q_move_def Let_def)
next
  show "q_move [A, B, C] 3 1 = Inr (True, [C, A, B])"
    by (simp add: q_move_def py_pop_def py_insert_def Let_def)
qed

theorem q_move_spec_witness:
  "q_move [''a'', ''b'', ''c'', ''d''] 2 4 = Inr (True, [''a'', ''c'', ''d'', ''b''])
   \<and> q_move [''a'', ''b''] 2 2 = Inr (True, [''a'', ''b''])
   \<and> q_move [''a'', ''b''] 0 2 = Inr (False, [''a'', ''b''])
   \<and> q_move [''a'', ''b''] 1 3 = Inr (False, [''a'', ''b''])"
  using q_move_spec [of 2 "[''a'', ''b'', ''c'', ''d'']" 4]
        q_move_spec [of 2 "[''a'', ''b'']" 2]
        q_move_spec [of 0 "[''a'', ''b'']" 2]
        q_move_spec [of 1 "[''a'', ''b'']" 3]
  by (simp add: q_move_def py_pop_def py_insert_def Let_def)

text \<open>
  Claim C9.  For every queue, \<^verbatim>\<open>q_remove\<close> with a 1-based index below 1 or above the
  length returns \<^verbatim>\<open>None\<close> and leaves the queue as it is; with an index in range it
  returns the item at that position and removes it.  The control action
  \<^verbatim>\<open>queue_remove\<close> with index 99 on a queue of two items changes nothing.
\<close>

theorem q_remove_spec:
  "(index < 1 \<or> index > int (length q) \<longrightarrow> q_remove q index = Inr (None, q))
   \<and> (1 \<le> index \<and> index \<le> int (length q) \<longrightarrow>
        q_remove q index =
          Inr (Some (q ! nat (index - 1)),
               take (nat (index - 1)) q @ drop (Suc (nat (index - 1))) q))
   \<and> (gid \<noteq> 0 \<and> players c gid = Some gp \<and> length (queue gp) = 2 \<longrightarrow>
        apply_control E c (control_record ''queue_remove'' ''guild_id'' gid [(''index'', JInt 99)]) =
          (c, None))"
proof (intro conjI impI)
  assume "index < 1 \<or> index > int (length q)"
  then show "q_remove q index = Inr (None, q)"
    by (auto simp: q_remove_def Let_def)
next
  assume "1 \<le> index \<and> index \<le> int (length q)"
  then show "q_remove q index =
          Inr (Some (q ! nat (index - 1)),
               take (nat (index - 1)) q @ drop (Suc (nat (index - 1))) q)"
    by (simp add: q_remove_def Let_def py_pop_in_range)
next
  assume a: "gid \<noteq> 0 \<and> players c gid = Some gp \<and> length (queue gp) = 2"
  then have "q_remove (queue gp) 99 = Inr (None, queue gp)"
    by (simp add: q_remove_def Let_def)
  with a show "apply_control E c (control_record ''queue_remove'' ''guild_id'' gid [(''index'', JInt 99)]) = (c, None)"
    by (simp add: apply_control_queue_remove put_player_same)
qed

theorem q_remove_spec_witness:
  "q_remove [''C'', ''A'', ''B''] 2 = Inr (Some ''A'', [''C'', ''B''])
   \<and> q_remove [''C'', ''A'', ''B''] 0 = Inr (None, [''C'', ''A'', ''B''])
   \<and> q_remove [''C'', ''A'', ''B''] 4 = Inr (None, [''C'', ''A'', ''B''])
   \<and> apply_control example_env example_cog
        (control_record ''queue_remove'' ''guild_id'' 7 [(''index'', JInt 99)]) = (example_cog, None)"
proof -
  have h: "(7::int) \<noteq> 0 \<and> players example_cog 7 = Some example_player
           \<and> length (queue example_player) = 2"
    by (simp add: example_cog_def example_player_def)
  show ?thesis
    using q_remove_spec [of 2 "[''C'', ''A'', ''B'']" 7 example_cog example_player example_env]
          q_remove_spec [of 0 "[''C'', ''A'', ''B'']" 7 example_cog example_player example_env]
          q_remove_spec [of 4 "[''C'', ''A'', ''B'']" 7 example_cog example_player example_env] h
    by simp
qed

section \<open>The control channel\<close>

text \<open>
  Claim C2, as stated, fails.  The log is empty at attach.  A poll that finds the first
  24 bytes of a record moves the read position to 24, past the unterminated fragment;
  the next poll finds the rest of the record and its line end, and neither piece
  decodes, so the players are as before and the volume of player 7 is still 35.  The same
  record found whole in one poll sets the volume to 50.
\<close>

theorem partial_record_consumed:
  "control_pos (control_loop example_env (control_attach example_cog (Some 0))
      (appended [] [volume_line_head])) = 24
   \<and> volume_line_head @ volume_line_tail = volume_line
   \<and> players (control_loop example_env (control_attach example_cog (Some 0))
        (appended [] [volume_line_head, volume_line_tail @ [CHR 0x0A]])) = players example_cog
   \<and> map_option volume (players example_cog 7) = Some 35
   \<and> map_option volume
       (players (control_loop example_env (control_attach example_cog (Some 0))
          (appended [] [volume_line @ [CHR 0x0A]])) 7) = Some 50"
proof -
  let ?c0 = "control_attach example_cog (Some 0)"
  have cat: "volume_line_head @ volume_line_tail = volume_line"
    by (simp add: volume_line_def volume_line_head_def volume_line_tail_def)
  have p0: "control_pos ?c0 = length ([] :: string)"
    by (simp add: control_attach_def)
  have sh: "splitlines volume_line_head = [volume_line_head]"
    by (simp add: splitlines_def splitlines_from_fragment volume_line_head_def)
  have st: "splitlines (volume_line_tail @ [CHR 0x0A]) = [volume_line_tail]"
    using splitlines_records [of "[volume_line_tail]" "[]"]
    by (simp add: volume_line_tail_def)
  have sw: "splitlines (volume_line @ [CHR 0x0A]) = [volume_line]"
    using splitlines_records [of "[volume_line]" "[]"]
    by (simp add: volume_line_def)
  have nh: "json_loads example_env volume_line_head = None"
    by (simp add: example_env_def volume_line_def volume_line_80_def volume_line_head_def)
  have nt: "json_loads example_env volume_line_tail = None"
    by (simp add: example_env_def volume_line_def volume_line_80_def volume_line_tail_def)
  have nw: "json_loads example_env volume_line =
              Some (control_record ''volume'' ''guild_id'' 7 [(''level'', JInt 50)])"
    by (simp add: example_env_def)
  have l1: "control_loop example_env ?c0 (appended [] [volume_line_head]) =
              ?c0\<lparr>control_pos := length volume_line_head\<rparr>"
    using control_loop_appended [OF p0, of example_env "[volume_line_head]"]
    by (simp add: sh nh del: appended.simps control_loop.simps)
  have l2: "control_loop example_env ?c0
              (appended [] [volume_line_head, volume_line_tail @ [CHR 0x0A]]) =
            ?c0\<lparr>control_pos := length (volume_line_head @ volume_line_tail @ [CHR 0x0A])\<rparr>"
    using control_loop_appended
            [OF p0, of example_env "[volume_line_head, volume_line_tail @ [CHR 0x0A]]"]
    by (simp add: sh st nh nt del: appended.simps control_loop.simps)
  have lw: "control_loop example_env ?c0 (appended [] [volume_line @ [CHR 0x0A]]) =
              (fst (apply_control example_env ?c0
                 (control_record ''volume'' ''guild_id'' 7 [(''level'', JInt 50)])))
              \<lparr>control_pos := length (volume_line @ [CHR 0x0A])\<rparr>"
    using control_loop_appended [OF p0, of example_env "[volume_line @ [CHR 0x0A]]"]
    by (simp add: sw nw del: appended.simps control_loop.simps)
  have a: "control_pos (control_loop example_env ?c0 (appended [] [volume_line_head])) = 24"
    unfolding l1 by (simp add: volume_line_head_def)
  have b: "players (control_loop example_env ?c0
        (appended [] [volume_line_head, volume_line_tail @ [CHR 0x0A]])) = players example_cog"
    unfolding l2 by (simp add: control_attach_def)
  have v0: "map_option volume (players example_cog 7) = Some 35"
    by (simp add: example_cog_def example_player_def)
  have v: "map_option volume
       (players (control_loop example_env ?c0 (appended [] [volume_line @ [CHR 0x0A]])) 7) = Some 50"
    unfolding lw by (simp add: control_volume_nonzero)
  show ?thesis
    using a cat b v0 v by blast
qed

text \<open>
  Claim C2, amended.  At attach the read position is the size of the log.  From a read
  position at the end of the bytes \<open>hist\<close>, any number of polls of a log that grows by
  the chunks \<open>chunks\<close> has the effect of \<^verbatim>\<open>_apply_control\<close> on the commands decoded
  from the lines of the chunks, each line once, chunk by chunk and line by line, lines
  that do not decode being skipped; nothing of \<open>hist\<close> is read, and the read position
  ends at the end of the file, whether or not the last chunk ends with a line end.  In
  particular, when every poll finds a batch of complete records, each ended by a line
  feed and each decoding to a command, the effect is that of applying the commands of all
  the records once each, in the order of the log.  The lines of a chunk made of complete
  records and a last fragment without a line end are those records and then the
  fragment, so a fragment is consumed by the poll that reads it.
\<close>

theorem control_loop_applies_appended:
  "control_pos (control_attach c (Some (length hist))) = length hist
   \<and> (control_pos c = length hist \<longrightarrow>
        control_loop E c (appended hist chunks) =
          (foldl (\<lambda>c evt. fst (apply_control E c evt)) c
             (List.map_filter (json_loads E) (concat (map splitlines chunks))))
            \<lparr>control_pos := length (hist @ concat chunks)\<rparr>)
   \<and> (control_pos c = length hist \<and>
      (\<forall>ls \<in> set lss. \<forall>l \<in> set ls.
          CHR 0x0A \<notin> set l \<and> CHR 0x0D \<notin> set l \<and> json_loads E l = Some (dec l)) \<longrightarrow>
        control_loop E c (appended hist (map (\<lambda>ls. concat (map (\<lambda>l. l @ [CHR 0x0A]) ls)) lss)) =
          (foldl (\<lambda>c evt. fst (apply_control E c evt)) c (map dec (concat lss)))
            \<lparr>control_pos :=
               length (hist @ concat (map (\<lambda>ls. concat (map (\<lambda>l. l @ [CHR 0x0A]) ls)) lss))\<rparr>)
   \<and> ((\<forall>l \<in> set ls. CHR 0x0A \<notin> set l \<and> CHR 0x0D \<notin> set l) \<and>
      CHR 0x0A \<notin> set frag \<and> CHR 0x0D \<notin> set frag \<longrightarrow>
        splitlines (concat (map (\<lambda>l. l @ [CHR 0x0A]) ls) @ frag) =
          ls @ (if frag = [] then [] else [frag]))"
proof (intro conjI impI)
  show "control_pos (control_attach c (Some (length hist))) = length hist"
    by (simp add: control_attach_def)
next
  assume "control_pos c = length hist"
  then show "control_loop E c (appended hist chunks) =
          (foldl (\<lambda>c evt. fst (apply_control E c evt)) c
             (List.map_filter (json_loads E) (concat (map splitlines chunks))))
            \<lparr>control_pos := length (hist @ concat chunks)\<rparr>"
    by (simp only: control_loop_appended process_lines_foldl)
next
  let ?chunks = "map (\<lambda>ls. concat (map (\<lambda>l. l @ [CHR 0x0A]) ls)) lss"
  assume a: "control_pos c = length hist \<and>
      (\<forall>ls \<in> set lss. \<forall>l \<in> set ls.
          CHR 0x0A \<notin> set l \<and> CHR 0x0D \<notin> set l \<and> json_loads E l = Some (dec l))"
  then have lines: "concat (map splitlines ?chunks) = concat lss"
    by (intro splitlines_batches) blast
  have dec: "List.map_filter (json_loads E) (concat lss) = map dec (concat lss)"
    using a by (intro map_filter_decoded) auto
  have "control_loop E c (appended hist ?chunks) =
          (process_lines E c (concat (map splitlines ?chunks)))
            \<lparr>control_pos := length (hist @ concat ?chunks)\<rparr>"
    using a by (intro control_loop_appended) blast
  then show "control_loop E c (appended hist ?chunks) =
          (foldl (\<lambda>c evt. fst (apply_control E c evt)) c (map dec (concat lss)))
            \<lparr>control_pos := length (hist @ concat ?chunks)\<rparr>"
    by (simp only: lines process_lines_foldl dec)
next
  assume "(\<forall>l \<in> set ls. CHR 0x0A \<notin> set l \<and> CHR 0x0D \<notin> set l) \<and>
      CHR 0x0A \<notin> set frag \<and> CHR 0x0D \<notin> set frag"
  then show "splitlines (concat (map (\<lambda>l. l @ [CHR 0x0A]) ls) @ frag) =
          ls @ (if frag = [] then [] else [frag])"
    by (simp add: splitlines_records)
qed

theorem control_loop_applies_appended_witness:
  "control_pos (control_attach example_cog (Some 3)) = length ''old''
   \<and> control_loop example_env (control_attach example_cog (Some 3))
        (appended ''old'' [volume_line_80 @ [CHR 0x0A], volume_line_head]) =
       (foldl (\<lambda>c evt. fst (apply_control example_env c evt))
          (control_attach example_cog (Some 3))
          (List.map_filter (json_loads example_env)
             (concat (map splitlines [volume_line_80 @ [CHR 0x0A], volume_line_head]))))
       \<lparr>control_pos := length (''old'' @ concat [volume_line_80 @ [CHR 0x0A], volume_line_head])\<rparr>
   \<and> map_option volume
       (players (control_loop example_env (control_attach example_cog (Some 3))
          (appended ''old''
             (map (\<lambda>ls. concat (map (\<lambda>l. l @ [CHR 0x0A]) ls))
                [[volume_line], [volume_line_80, volume_line]]))) 7) = Some 50
   \<and> map_option volume
       (players (control_loop example_env (control_attach example_cog (Some 3))
          (appended ''old''
             (map (\<lambda>ls. concat (map (\<lambda>l. l @ [CHR 0x0A]) ls))
                [[volume_line], [volume_line, volume_line_80]]))) 7) = Some 80
   \<and> splitlines (concat (map (\<lambda>l. l @ [CHR 0x0A]) [''ab'', ''cd'']) @ ''ef'') =
       [''ab'', ''cd'', ''ef'']"
proof -
  let ?c = "control_attach example_cog (Some 3)"
  let ?dec = "\<lambda>l. control_record ''volume'' ''guild_id'' 7
                      [(''level'', JInt (if l = volume_line then 50 else 80))]"
  let ?chunks = "[volume_line_80 @ [CHR 0x0A], volume_line_head]"
  let ?A = "[[volume_line], [volume_line_80, volume_line]]"
  let ?B = "[[volume_line], [volume_line, volume_line_80]]"
  have p: "control_pos ?c = length ''old''"
    by (simp add: control_attach_def)
  have ne: "volume_line_80 \<noteq> volume_line"
    by (simp add: volume_line_def volume_line_80_def)
  have ok: "CHR 0x0A \<notin> set l \<and> CHR 0x0D \<notin> set l \<and> json_loads example_env l = Some (?dec l)"
    if "l = volume_line \<or> l = volume_line_80" for l
    using that ne by (auto simp: example_env_def volume_line_def volume_line_80_def)
  have hA: "control_pos ?c = length ''old'' \<and>
      (\<forall>ls \<in> set ?A. \<forall>l \<in> set ls.
          CHR 0x0A \<notin> set l \<and> CHR 0x0D \<notin> set l \<and> json_loads example_env l = Some (?dec l))"
    using p ok by auto
  have hB: "control_pos ?c = length ''old'' \<and>
      (\<forall>ls \<in> set ?B. \<forall>l \<in> set ls.
          CHR 0x0A \<notin> set l \<and> CHR 0x0D \<notin> set l \<and> json_loads example_env l = Some (?dec l))"
    using p ok by auto
  have s: "(\<forall>l \<in> set [''ab'', ''cd'']. CHR 0x0A \<notin> set l \<and> CHR 0x0D \<notin> set l) \<and>
      CHR 0x0A \<notin> set ''ef'' \<and> CHR 0x0D \<notin> set ''ef''"
    by simp
  note instA = control_loop_applies_appended
      [of ?c "''old''" example_env ?chunks ?A ?dec "[''ab'', ''cd'']" "''ef''"]
  note instB = control_loop_applies_appended
      [of ?c "''old''" example_env ?chunks ?B ?dec "[''ab'', ''cd'']" "''ef''"]
  have t: "control_loop example_env ?c (appended ''old'' ?chunks) =
       (foldl (\<lambda>c evt. fst (apply_control example_env c evt)) ?c
          (List.map_filter (json_loads example_env) (concat (map splitlines ?chunks))))
       \<lparr>control_pos := length (''old'' @ concat ?chunks)\<rparr>"
    using instA p by blast
  have step: "map_option volume (players (fst (apply_control example_env c'
                 (control_record ''volume'' ''guild_id'' 7 [(''level'', JInt n)]))) 7) =
               Some (max 1 (min 200 n))" if "n \<noteq> 0" for c' n
    using that by (simp add: control_volume_nonzero)
  have fA: "control_loop example_env ?c
          (appended ''old'' (map (\<lambda>ls. concat (map (\<lambda>l. l @ [CHR 0x0A]) ls)) ?A)) =
        (foldl (\<lambda>c evt. fst (apply_control example_env c evt)) ?c (map ?dec (concat ?A)))
          \<lparr>control_pos :=
             length (''old'' @ concat (map (\<lambda>ls. concat (map (\<lambda>l. l @ [CHR 0x0A]) ls)) ?A))\<rparr>"
    using instA hA by blast
  have fB: "control_loop example_env ?c
          (appended ''old'' (map (\<lambda>ls. concat (map (\<lambda>l. l @ [CHR 0x0A]) ls)) ?B)) =
        (foldl (\<lambda>c evt. fst (apply_control example_env c evt)) ?c (map ?dec (concat ?B)))
          \<lparr>control_pos :=
             length (''old'' @ concat (map (\<lambda>ls. concat (map (\<lambda>l. l @ [CHR 0x0A]) ls)) ?B))\<rparr>"
    using instB hB by blast
  have vA: "map_option volume (players (control_loop example_env ?c
          (appended ''old'' (map (\<lambda>ls. concat (map (\<lambda>l. l @ [CHR 0x0A]) ls)) ?A))) 7) = Some 50"
    unfolding fA using ne by (simp add: step)
  have vB: "map_option volume (players (control_loop example_env ?c
          (appended ''old'' (map (\<lambda>ls. concat (map (\<lambda>l. l @ [CHR 0x0A]) ls)) ?B))) 7) = Some 80"
    unfolding fB using ne by (simp add: step)
  have "splitlines (concat (map (\<lambda>l. l @ [CHR 0x0A]) [''ab'', ''cd'']) @ ''ef'') =
          [''ab'', ''cd''] @ (if ''ef'' = [] then [] else [''ef''])"
    using instA s by blast
  then have r: "splitlines (concat (map (\<lambda>l. l @ [CHR 0x0A]) [''ab'', ''cd'']) @ ''ef'') =
          [''ab'', ''cd'', ''ef'']"
    by simp
  show ?thesis
    using p t vA vB r by blast
qed

text \<open>
  Claim C4.  Every set of the volume stores the requested level clamped to \<open>[1, 200]\<close>
  (\<open>set_volume_stores_clamped\<close>), and a control record with a nonzero integer level
  reaches \<^verbatim>\<open>set_volume\<close> with that level (\<open>control_volume_nonzero\<close>; level 500 gives
  200).  A control record with level 0 does not: \<^verbatim>\<open>payload.get("level") or 100\<close> turns
  the 0 into 100, so the stored volume is 100, where the clamp of 0 is 1 and
  \<^verbatim>\<open>/music volume 0\<close> stores 1.
\<close>

theorem control_volume_zero_level:
  "map_option volume
     (players (fst (apply_control E example_cog
        (control_record ''volume'' ''guild_id'' 7 [(''level'', JInt 0)]))) 7) = Some 100
   \<and> map_option volume (players (cmd_volume example_cog 7 0) 7) = Some 1
   \<and> max 1 (min 200 (0::int)) = 1"
  by (simp add: control_record_dispatch lower_char_def is_ascii_def apply_action_volume put_after_get put_after_get_pair
      set_volume_stores_clamped cmd_volume_def split: prod.splits)

text \<open>
  Claim C5, as stated, fails: a \<^verbatim>\<open>volume\<close> record that names session 7 under the key
  \<^verbatim>\<open>session_id\<close> is dropped and the volume of player 7 stays 35, while the same record
  with the key \<^verbatim>\<open>guild_id\<close> sets it to 50.
\<close>

theorem session_id_record_dropped:
  "apply_control example_env example_cog
     (control_record ''volume'' ''session_id'' 7 [(''level'', JInt 50)]) = (example_cog, None)
   \<and> map_option volume (players example_cog 7) = Some 35
   \<and> map_option volume
       (players (fst (apply_control example_env example_cog
          (control_record ''volume'' ''guild_id'' 7 [(''level'', JInt 50)]))) 7) = Some 50"
proof -
  have "apply_control example_env example_cog
     (control_record ''volume'' ''session_id'' 7 [(''level'', JInt 50)]) = (example_cog, None)"
    by (simp add: apply_control_def control_record_def dget_def py_or_def)
  moreover have "map_option volume (players example_cog 7) = Some 35"
    by (simp add: example_cog_def example_player_def)
  moreover have "map_option volume
       (players (fst (apply_control example_env example_cog
          (control_record ''volume'' ''guild_id'' 7 [(''level'', JInt 50)]))) 7) = Some 50"
    by (simp add: apply_control_def control_record_def dget_def py_or_def lower_char_def is_ascii_def
        apply_action_def put_after_get put_after_get_pair set_volume_def Let_def split: prod.splits option.splits)
  ultimately show ?thesis by simp
qed

text \<open>
  Claim C5, amended.  For a control record with a string (or falsy) action and a
  dictionary payload: when the payload yields a nonzero identifier under the key
  \<^verbatim>\<open>guild_id\<close>, the action is applied to the player of that guild and the result is
  stored under that guild, and the entry of every other guild is unchanged; when the
  payload has no \<^verbatim>\<open>guild_id\<close> entry, or a falsy one, the record is dropped: nothing is
  raised and the cog is unchanged, whatever else the payload holds.
\<close>

theorem guild_id_dispatch:
  assumes "str_lower E (py_or (dget ev ''action'') (JStr [])) = Inr action"
    and "as_dict (py_or (dget ev ''payload'') (JDict [])) = Inr payload"
  shows "(py_int E (py_or (dget payload ''guild_id'') (JInt 0)) = Inr gid \<and> gid \<noteq> 0 \<longrightarrow>
            apply_control E c (JDict ev) =
              (put_player (fst (get_player c gid)) gid
                 (fst (apply_action E (snd (get_player c gid)) action payload)),
               snd (apply_action E (snd (get_player c gid)) action payload))
            \<and> (\<forall>g. g \<noteq> gid \<longrightarrow> players (fst (apply_control E c (JDict ev))) g = players c g))
       \<and> (\<not> truthy (dget payload ''guild_id'') \<longrightarrow> apply_control E c (JDict ev) = (c, None))
       \<and> (map_of payload ''guild_id'' = None \<longrightarrow> apply_control E c (JDict ev) = (c, None))"
proof (intro conjI impI allI)
  assume g: "py_int E (py_or (dget payload ''guild_id'') (JInt 0)) = Inr gid \<and> gid \<noteq> 0"
  then show d: "apply_control E c (JDict ev) =
              (put_player (fst (get_player c gid)) gid
                 (fst (apply_action E (snd (get_player c gid)) action payload)),
               snd (apply_action E (snd (get_player c gid)) action payload))"
    using assms by (simp add: apply_control_dispatch)
  fix g' assume ne: "g' \<noteq> gid"
  obtain c1 gp where gpl: "get_player c gid = (c1, gp)"
    by (cases "get_player c gid")
  show "players (fst (apply_control E c (JDict ev))) g' = players c g'"
    using ne gpl get_player_others [OF gpl ne] by (simp add: d put_player_others)
next
  assume "\<not> truthy (dget payload ''guild_id'')"
  then show "apply_control E c (JDict ev) = (c, None)"
    using assms by (simp add: apply_control_dropped)
next
  assume "map_of payload ''guild_id'' = None"
  then have "\<not> truthy (dget payload ''guild_id'')"
    by (simp add: dget_def)
  then show "apply_control E c (JDict ev) = (c, None)"
    using assms by (simp add: apply_control_dropped)
qed

theorem guild_id_dispatch_witness:
  "apply_control example_env example_cog
     (control_record ''clear'' ''guild_id'' 7 []) =
       (example_cog\<lparr>players := [7 \<mapsto> example_player\<lparr>queue := []\<rparr>]\<rparr>, None)
   \<and> apply_control example_env example_cog
     (control_record ''clear'' ''guild_id'' 0 []) = (example_cog, None)
   \<and> apply_control example_env example_cog
     (control_record ''clear'' ''session_id'' 7 []) = (example_cog, None)"
proof -
  have a: "str_lower example_env (py_or (dget [(''action'', JStr ''clear''), (''payload'', JDict [(k, JInt g)])]
                         ''action'') (JStr [])) = Inr ''clear''" for k g
    by (simp add: dget_def py_or_def lower_char_def is_ascii_def)
  have p: "as_dict (py_or (dget [(''action'', JStr ''clear''), (''payload'', JDict [(k, JInt g)])]
                         ''payload'') (JDict [])) = Inr [(k, JInt g)]" for k g
    by (simp add: dget_def py_or_def)
  have g7: "py_int example_env (py_or (dget [(''guild_id'', JInt 7)] ''guild_id'') (JInt 0)) = Inr 7
            \<and> (7::int) \<noteq> 0"
    by (simp add: dget_def py_or_def)
  have g0: "\<not> truthy (dget [(''guild_id'', JInt 0)] ''guild_id'')"
    by (simp add: dget_def)
  have s7: "map_of [(''session_id'', JInt 7)] ''guild_id'' = None"
    by simp
  have act: "apply_action example_env example_player ''clear'' [(''guild_id'', JInt 7)] =
               (example_player\<lparr>queue := []\<rparr>, None)"
    by (simp add: apply_action_def q_clear_def)
  have gp: "get_player example_cog 7 = (example_cog, example_player)"
    by (simp add: get_player_def example_cog_def)
  note i7 = guild_id_dispatch [OF a [of "''guild_id''" 7] p [of "''guild_id''" 7],
                             where gid = 7 and c = example_cog]
  note i0 = guild_id_dispatch [OF a [of "''guild_id''" 0] p [of "''guild_id''" 0],
                             where gid = 0 and c = example_cog]
  note i5 = guild_id_dispatch [OF a [of "''session_id''" 7] p [of "''session_id''" 7],
                             where gid = 7 and c = example_cog]
  have "apply_control example_env example_cog
          (JDict [(''action'', JStr ''clear''), (''payload'', JDict [(''guild_id'', JInt 7)])]) =
        (put_player (fst (get_player example_cog 7)) 7
           (fst (apply_action example_env (snd (get_player example_cog 7)) ''clear''
                  [(''guild_id'', JInt 7)])),
         snd (apply_action example_env (snd (get_player example_cog 7)) ''clear''
                  [(''guild_id'', JInt 7)]))"
    using i7 g7 by blast
  then have r7: "apply_control example_env example_cog (control_record ''clear'' ''guild_id'' 7 []) =
       (example_cog\<lparr>players := [7 \<mapsto> example_player\<lparr>queue := []\<rparr>]\<rparr>, None)"
    by (simp add: control_record_def gp act) (simp add: example_cog_def put_player_def)
  have "apply_control example_env example_cog
          (JDict [(''action'', JStr ''clear''), (''payload'', JDict [(''guild_id'', JInt 0)])]) =
        (example_cog, None)"
    using i0 g0 by blast
  then have r0: "apply_control example_env example_cog
     (control_record ''clear'' ''guild_id'' 0 []) = (example_cog, None)"
    by (simp add: control_record_def)
  have "apply_control example_env example_cog
          (JDict [(''action'', JStr ''clear''), (''payload'', JDict [(''session_id'', JInt 7)])]) =
        (example_cog, None)"
    using i5 s7 by blast
  then have rs: "apply_control example_env example_cog
     (control_record ''clear'' ''session_id'' 7 []) = (example_cog, None)"
    by (simp add: control_record_def)
  show ?thesis
    using r7 r0 rs by blast
qed

text \<open>
  Claim C8.  \<^verbatim>\<open>/music loop\<close> stores one of the four declared choices
  (\<open>cmd_loop_mode\<close>).  The control action \<^verbatim>\<open>loop\<close> stores whatever string the payload
  carries under \<^verbatim>\<open>mode\<close>: the record with mode \<^verbatim>\<open>shuffle\<close> leaves the repeat mode
  \<^verbatim>\<open>shuffle\<close>, which is none of \<^verbatim>\<open>off\<close>, \<^verbatim>\<open>track\<close>, \<^verbatim>\<open>queue\<close>, \<^verbatim>\<open>auto\<close>.
\<close>

theorem control_loop_mode_unchecked:
  "map_option loop_mode
     (players (fst (apply_control E example_cog
        (control_record ''loop'' ''guild_id'' 7 [(''mode'', JStr ''shuffle'')]))) 7) = Some ''shuffle''
   \<and> ''shuffle'' \<notin> {''off'', ''track'', ''queue'', ''auto''}"
  by (simp add: control_record_dispatch lower_char_def is_ascii_def apply_action_def dget_def py_or_def
      put_after_get put_after_get_pair)

text \<open>
  Claim C10.  A control record whose action is a string (or is missing or false) and
  whose payload yields a nonzero \<^verbatim>\<open>guild_id\<close> leaves a player for that guild in the
  player map, whatever the action and even when the command raises.  When the action,
  in lower case, is none of the recognised ones the record has no other effect: the map gains a fresh
  player for the guild if none was there and is otherwise unchanged, so the queue,
  current track, volume and repeat mode of every existing session stay as they were.
\<close>

theorem unrecognized_action_frame:
  assumes "str_lower E (py_or (dget ev ''action'') (JStr [])) = Inr action"
    and "as_dict (py_or (dget ev ''payload'') (JDict [])) = Inr payload"
    and "py_int E (py_or (dget payload ''guild_id'') (JInt 0)) = Inr gid"
    and "gid \<noteq> 0"
  shows "players (fst (apply_control E c (JDict ev))) gid \<noteq> None
       \<and> (players c gid = None \<and>
          action \<notin> set [''pause'', ''resume'', ''skip'', ''stop'', ''shuffle'', ''leave'',
                         ''clear'', ''loop'', ''volume'', ''play'', ''playtop'',
                         ''queue_remove'', ''queue_move''] \<longrightarrow>
            apply_control E c (JDict ev) =
              (c\<lparr>players := (players c)(gid \<mapsto> new_player gid)\<rparr>, None))
       \<and> (players c gid \<noteq> None \<and>
          action \<notin> set [''pause'', ''resume'', ''skip'', ''stop'', ''shuffle'', ''leave'',
                         ''clear'', ''loop'', ''volume'', ''play'', ''playtop'',
                         ''queue_remove'', ''queue_move''] \<longrightarrow>
            apply_control E c (JDict ev) = (c, None))
       \<and> (action \<notin> set [''pause'', ''resume'', ''skip'', ''stop'', ''shuffle'', ''leave'',
                         ''clear'', ''loop'', ''volume'', ''play'', ''playtop'',
                         ''queue_remove'', ''queue_move''] \<longrightarrow>
            (\<forall>g p. players c g = Some p \<longrightarrow>
                   players (fst (apply_control E c (JDict ev))) g = Some p))"
proof -
  note d = apply_control_dispatch [OF assms, of c]
  obtain c1 gp where gpl: "get_player c gid = (c1, gp)"
    by (cases "get_player c gid")
  have ins: "players (fst (apply_control E c (JDict ev))) gid \<noteq> None"
    by (simp add: d put_after_get put_after_get_pair)
  have unrec: "apply_control E c (JDict ev) = (c1, None)"
    if "action \<notin> set [''pause'', ''resume'', ''skip'', ''stop'', ''shuffle'', ''leave'',
                         ''clear'', ''loop'', ''volume'', ''play'', ''playtop'',
                         ''queue_remove'', ''queue_move'']"
    using that gpl get_player_holds [OF gpl]
    by (simp add: d apply_action_unrecognized put_player_same del: set_simps)
  have absent: "players c gid = None \<Longrightarrow> c1 = c\<lparr>players := (players c)(gid \<mapsto> new_player gid)\<rparr>"
    using gpl by (auto simp: get_player_absent)
  have present: "players c gid \<noteq> None \<Longrightarrow> c1 = c"
    using gpl by (auto simp: get_player_present)
  have keeps: "\<forall>g p. players c g = Some p \<longrightarrow> players c1 g = Some p"
    using get_player_keeps [OF gpl] by blast
  show ?thesis
    using ins unrec absent present keeps by (simp del: set_simps)
qed

theorem unrecognized_action_frame_witness:
  "apply_control example_env example_cog (control_record ''dance'' ''guild_id'' 9 []) =
     (example_cog\<lparr>players := (players example_cog)(9 \<mapsto> new_player 9)\<rparr>, None)
   \<and> apply_control example_env example_cog (control_record ''dance'' ''guild_id'' 7 []) =
     (example_cog, None)"
proof -
  have a: "str_lower example_env (py_or (dget [(''action'', JStr ''dance''), (''payload'', JDict [(''guild_id'', JInt g)])]
                         ''action'') (JStr [])) = Inr ''dance''" for g
    by (simp add: dget_def py_or_def lower_char_def is_ascii_def)
  have p: "as_dict (py_or (dget [(''action'', JStr ''dance''), (''payload'', JDict [(''guild_id'', JInt g)])]
                         ''payload'') (JDict [])) = Inr [(''guild_id'', JInt g)]" for g
    by (simp add: dget_def py_or_def)
  have g9: "py_int example_env (py_or (dget [(''guild_id'', JInt 9)] ''guild_id'') (JInt 0)) = Inr 9"
    by (simp add: dget_def py_or_def)
  have g7: "py_int example_env (py_or (dget [(''guild_id'', JInt 7)] ''guild_id'') (JInt 0)) = Inr 7"
    by (simp add: dget_def py_or_def)
  have n9: "players example_cog 9 = None" and n7: "players example_cog 7 \<noteq> None"
    by (simp_all add: example_cog_def)
  show ?thesis
    using unrecognized_action_frame [OF a p g9, of example_cog]
          unrecognized_action_frame [OF a p g7, of example_cog] n9 n7
    by (simp add: control_record_def)
qed

end
